theory Spec2Isabelle
  imports Main
begin

section \<open>The paginated, selectable table component (CustomTable)\<close>

text \<open>
  The component keeps a cursor over a token-paginated remote list. Its state is the
  React state object of the class (\<open>CustomTableState\<close>) together with the private
  instance field \<open>_isMounted\<close>. Page indices are JavaScript numbers that only ever hold
  integers here; they are modelled as \<open>int\<close>. The bounds \<open>0\<close> and \<open>maxPageIndex\<close> are
  integers of magnitude at most \<open>2^53 - 1\<close>, so clamping the exact integer sum gives
  the same value as clamping the rounded double.
\<close>

subsection \<open>Data\<close>

record CustomTableState =
  currentPage :: int
  isBusy :: bool
  maxPageIndex :: int
  pageSize :: int
  tokenList :: "string list"

text \<open>The component instance: its state object and the liveness flag \<open>_isMounted\<close>.\<close>

record CustomTable =
  state :: CustomTableState
  isMounted :: bool

text \<open>A rejected promise carries a reason; the table never inspects it.\<close>

datatype js_error = Error string

text \<open>
  The optional argument of \<open>reload\<close>: each property may be absent (\<open>None\<close>). A page token
  that is present may still be \<open>undefined\<close> (an out-of-range array read), which is the
  inner \<open>None\<close>.
\<close>

record LoadRequest =
  lr_pageSize :: "int option"
  lr_pageToken :: "string option option"

text \<open>The request handed to the fetch collaborator \<open>props.reload\<close>.\<close>

record Request =
  req_pageSize :: int
  req_pageToken :: "string option"

record Row =
  row_id :: string
  otherFields :: "string list"

text \<open>
  The properties the selection handlers read. \<open>None\<close> is an optional property left out;
  \<open>updateSelection\<close> tells whether the optional callback was supplied.
\<close>

record CustomTableProps =
  disableSelection :: "bool option"
  rows :: "Row list"
  selectedIds :: "string list option"
  updateSelection :: bool
  useRadioButtons :: "bool option"

text \<open>What a selection handler does to the outside: the calls it makes, in order.\<close>

datatype call = UpdateSelection "string list" | StopPropagation

subsection \<open>JavaScript primitives\<close>

definition MAX_SAFE_INTEGER :: int where
  "MAX_SAFE_INTEGER = 2 ^ 53 - 1"

text \<open>\<open>xs[i]\<close>: \<open>undefined\<close> (here \<open>None\<close>) outside the array.\<close>

definition index_at :: "'a list \<Rightarrow> int \<Rightarrow> 'a option" where
  "index_at xs i = (if 0 \<le> i \<and> i < int (length xs) then Some (xs ! nat i) else None)"

text \<open>\<open>xs.indexOf(x)\<close>: the first position holding \<open>x\<close>, or \<open>-1\<close>.\<close>

fun indexOf :: "'a list \<Rightarrow> 'a \<Rightarrow> int" where
  "indexOf [] x = - 1"
| "indexOf (y # ys) x =
     (if y = x then 0 else (let i = indexOf ys x in if i = - 1 then - 1 else i + 1))"

text \<open>A relative index of \<open>slice\<close>: negative counts from the end, all clipped to the array.\<close>

definition rel_index :: "nat \<Rightarrow> int \<Rightarrow> nat" where
  "rel_index len k = (if k < 0 then nat (max (int len + k) 0) else min (nat k) len)"

definition slice :: "'a list \<Rightarrow> int \<Rightarrow> int \<Rightarrow> 'a list" where
  "slice xs start fin =
     (let a = rel_index (length xs) start; b = rel_index (length xs) fin
      in take (b - a) (drop a xs))"

text \<open>\<open>xs.slice(start)\<close>, the end left out.\<close>

definition slice_from :: "'a list \<Rightarrow> int \<Rightarrow> 'a list" where
  "slice_from xs start = slice xs start (int (length xs))"

text \<open>Truthiness of a string and of an optional boolean.\<close>

definition truthy :: "string \<Rightarrow> bool" where
  "truthy s = (s \<noteq> [])"

definition is_true :: "bool option \<Rightarrow> bool" where
  "is_true b = (b = Some True)"

subsection \<open>Construction and teardown\<close>

definition constructor :: CustomTable where
  "constructor =
     \<lparr>state = \<lparr>currentPage = 0, isBusy = False, maxPageIndex = MAX_SAFE_INTEGER,
               pageSize = 10, tokenList = [[]]\<rparr>,
      isMounted = True\<rparr>"

definition componentWillUnmount :: "CustomTable \<Rightarrow> CustomTable" where
  "componentWillUnmount c = c\<lparr>isMounted := False\<rparr>"

text \<open>\<open>setStateSafe\<close>: the partial state is merged only while the component is mounted.\<close>

definition setStateSafe :: "(CustomTableState \<Rightarrow> CustomTableState) \<Rightarrow> CustomTable \<Rightarrow> CustomTable" where
  "setStateSafe newState c = (if isMounted c then c\<lparr>state := newState (state c)\<rparr> else c)"

text \<open>
  \<open>this.state.tokenList.push(t)\<close> writes into the array that the state object holds;
  it does not go through \<open>setStateSafe\<close>.
\<close>

definition tokenList_push :: "string \<Rightarrow> CustomTable \<Rightarrow> CustomTable" where
  "tokenList_push t c = c\<lparr>state := (state c)\<lparr>tokenList := tokenList (state c) @ [t]\<rparr>\<rparr>"

text \<open>What may happen to the component while a fetch is pending: it is torn down, or not.\<close>

definition while_pending :: "bool \<Rightarrow> CustomTable \<Rightarrow> CustomTable" where
  "while_pending teardown c = (if teardown then componentWillUnmount c else c)"

subsection \<open>reload\<close>

text \<open>
  An asynchronous method is split at its one suspension point, the call of the fetch
  collaborator: \<open>_begin\<close> runs up to the call and yields the request, \<open>_resume\<close> runs from
  the settled promise (\<open>Inl\<close> a rejection, \<open>Inr\<close> the next-page token) to the end.
\<close>

definition reload_request :: "LoadRequest \<Rightarrow> CustomTable \<Rightarrow> Request" where
  "reload_request loadRequest c =
     \<lparr>req_pageSize = (case lr_pageSize loadRequest of None \<Rightarrow> pageSize (state c) | Some n \<Rightarrow> n),
      req_pageToken = (case lr_pageToken loadRequest of
                         None \<Rightarrow> index_at (tokenList (state c)) (currentPage (state c))
                       | Some t \<Rightarrow> t)\<rparr>"

definition reload_begin :: "LoadRequest \<Rightarrow> CustomTable \<Rightarrow> Request \<times> CustomTable" where
  "reload_begin loadRequest c =
     (let request = reload_request loadRequest c
      in (request, setStateSafe (\<lambda>s. s\<lparr>isBusy := True, pageSize := req_pageSize request\<rparr>) c))"

definition reload_resume :: "js_error + string \<Rightarrow> CustomTable \<Rightarrow> (js_error + string) \<times> CustomTable" where
  "reload_resume settled c = (settled, setStateSafe (\<lambda>s. s\<lparr>isBusy := False\<rparr>) c)"

definition reload :: "(Request \<Rightarrow> js_error + string) \<Rightarrow> bool \<Rightarrow> LoadRequest \<Rightarrow> CustomTable
    \<Rightarrow> (js_error + string) \<times> CustomTable" where
  "reload props_reload teardown loadRequest c =
     (let (request, c1) = reload_begin loadRequest c
      in reload_resume (props_reload request) (while_pending teardown c1))"

subsection \<open>Page navigation\<close>

definition pageChanged_target :: "int \<Rightarrow> CustomTable \<Rightarrow> int" where
  "pageChanged_target offset c =
     (let newCurrentPage = currentPage (state c) + offset;
          newCurrentPage = max 0 newCurrentPage;
          newCurrentPage = min (maxPageIndex (state c)) newCurrentPage
      in newCurrentPage)"

text \<open>Up to the fetch: the target page, the saved bound, the request and the busy state.\<close>

definition pageChanged_begin :: "int \<Rightarrow> CustomTable \<Rightarrow> (int \<times> int) \<times> Request \<times> CustomTable" where
  "pageChanged_begin offset c =
     (let newCurrentPage = pageChanged_target offset c;
          maxIdx = maxPageIndex (state c);
          (request, c1) = reload_begin
             \<lparr>lr_pageSize = None,
              lr_pageToken = Some (index_at (tokenList (state c)) newCurrentPage)\<rparr> c
      in ((newCurrentPage, maxIdx), request, c1))"

text \<open>From the settled fetch on: the cleanup of \<open>reload\<close>, then the reconciliation.\<close>

definition pageChanged_resume :: "int \<times> int \<Rightarrow> js_error + string \<Rightarrow> CustomTable
    \<Rightarrow> (js_error + unit) \<times> CustomTable" where
  "pageChanged_resume frame settled c =
     (let (newCurrentPage, maxIdx) = frame;
          (result, c1) = reload_resume settled c
      in case result of
           Inl e \<Rightarrow> (Inl e, c1)
         | Inr newPageToken \<Rightarrow>
             (let (c2, maxIdx2) =
                    (if truthy newPageToken
                     then (if newCurrentPage + 1 = int (length (tokenList (state c1)))
                           then tokenList_push newPageToken c1 else c1, maxIdx)
                     else (c1, newCurrentPage))
              in (Inr (), setStateSafe (\<lambda>s. s\<lparr>currentPage := newCurrentPage,
                                               maxPageIndex := maxIdx2\<rparr>) c2)))"

definition pageChanged :: "(Request \<Rightarrow> js_error + string) \<Rightarrow> bool \<Rightarrow> int \<Rightarrow> CustomTable
    \<Rightarrow> (js_error + unit) \<times> CustomTable" where
  "pageChanged props_reload teardown offset c =
     (let (frame, request, c1) = pageChanged_begin offset c
      in pageChanged_resume frame (props_reload request) (while_pending teardown c1))"

text \<open>
  \<open>componentDidMount\<close> starts the first load and neither awaits nor returns its promise:
  the method itself returns nothing, and a rejection of the load reaches no caller.
\<close>

definition componentDidMount :: "(Request \<Rightarrow> js_error + string) \<Rightarrow> bool \<Rightarrow> CustomTable
    \<Rightarrow> CustomTable" where
  "componentDidMount props_reload teardown c = snd (pageChanged props_reload teardown 0 c)"

subsection \<open>Changing the page size\<close>

definition resetToFirstPage :: "string \<Rightarrow> CustomTable \<Rightarrow> CustomTable" where
  "resetToFirstPage newPageToken c =
     (let (maxIdx, newTokenList) =
            (if truthy newPageToken then (MAX_SAFE_INTEGER, [[]] @ [newPageToken])
             else (0, [[]]))
      in setStateSafe (\<lambda>s. s\<lparr>currentPage := 0, maxPageIndex := maxIdx,
                              tokenList := newTokenList\<rparr>) c)"

definition requestRowsPerPage :: "(Request \<Rightarrow> js_error + string) \<Rightarrow> bool \<Rightarrow> int \<Rightarrow> CustomTable
    \<Rightarrow> (js_error + unit) \<times> CustomTable" where
  "requestRowsPerPage props_reload teardown newSize c =
     (case reload props_reload teardown
             \<lparr>lr_pageSize = Some newSize, lr_pageToken = Some (Some [])\<rparr> c of
        (Inl e, c1) \<Rightarrow> (Inl e, c1)
      | (Inr newPageToken, c1) \<Rightarrow> (Inr (), resetToFirstPage newPageToken c1))"

subsection \<open>Sequences of completed operations\<close>

text \<open>
  One completed operation: what was asked, how the fetch collaborator answers, and
  whether the component is torn down while the fetch is pending.
\<close>

datatype operation =
    GoToPage int "Request \<Rightarrow> js_error + string" bool
  | ChangePageSize int "Request \<Rightarrow> js_error + string" bool

fun perform :: "operation \<Rightarrow> CustomTable \<Rightarrow> CustomTable" where
  "perform (GoToPage offset props_reload teardown) c =
     snd (pageChanged props_reload teardown offset c)"
| "perform (ChangePageSize newSize props_reload teardown) c =
     snd (requestRowsPerPage props_reload teardown newSize c)"

fun run :: "operation list \<Rightarrow> CustomTable \<Rightarrow> CustomTable" where
  "run [] c = c"
| "run (x # xs) c = run xs (perform x c)"

subsection \<open>Row selection\<close>

definition handleSelectAllClick :: "CustomTableProps \<Rightarrow> bool \<Rightarrow> call list" where
  "handleSelectAllClick props checked =
     (if disableSelection props = Some True then []
      else (let ids = (if checked then map row_id (rows props) else [])
            in if updateSelection props then [UpdateSelection ids] else []))"

text \<open>The value \<open>newSelected\<close> that \<open>handleClick\<close> computes once selection is enabled.\<close>

definition newSelected :: "CustomTableProps \<Rightarrow> string \<Rightarrow> string list" where
  "newSelected props i =
     (if is_true (useRadioButtons props) then [i]
      else (let ids = (case selectedIds props of None \<Rightarrow> [] | Some xs \<Rightarrow> xs);
                selectedIndex = indexOf ids i
            in if selectedIndex = - 1 then ids @ [i]
               else slice ids 0 selectedIndex @ slice_from ids (selectedIndex + 1)))"

definition handleClick :: "CustomTableProps \<Rightarrow> string \<Rightarrow> call list" where
  "handleClick props i =
     (if disableSelection props = Some True then []
      else (if updateSelection props then [UpdateSelection (newSelected props i)] else [])
           @ [StopPropagation])"

definition isSelected :: "CustomTableProps \<Rightarrow> string \<Rightarrow> bool" where
  "isSelected props i =
     (case selectedIds props of None \<Rightarrow> False | Some xs \<Rightarrow> indexOf xs i \<noteq> - 1)"

text \<open>Whether \<open>render\<close> draws the select-all checkbox in the header.\<close>

definition render_selectAll :: "CustomTableProps \<Rightarrow> bool" where
  "render_selectAll props =
     (disableSelection props \<noteq> Some True \<and> useRadioButtons props \<noteq> Some True)"

subsection \<open>Notions used in the statements\<close>

text \<open>The request that \<open>_pageChanged\<close> hands to the fetch collaborator.\<close>

definition pageChanged_request :: "int \<Rightarrow> CustomTable \<Rightarrow> Request" where
  "pageChanged_request offset c = fst (snd (pageChanged_begin offset c))"

text \<open>A forward navigation: \<open>_pageChanged\<close> called with a positive offset.\<close>

fun is_forward :: "operation \<Rightarrow> bool" where
  "is_forward (GoToPage offset props_reload teardown) = (0 < offset)"
| "is_forward (ChangePageSize newSize props_reload teardown) = False"

text \<open>The cursor invariant: the page index is within its bounds and page 0 needs no token.\<close>

definition cursor_inv :: "CustomTable \<Rightarrow> bool" where
  "cursor_inv c =
     (0 \<le> currentPage (state c) \<and> currentPage (state c) \<le> maxPageIndex (state c)
      \<and> index_at (tokenList (state c)) 0 = Some [])"

section \<open>Properties of page navigation\<close>

lemmas table_defs =
  constructor_def MAX_SAFE_INTEGER_def componentWillUnmount_def setStateSafe_def
  tokenList_push_def while_pending_def reload_request_def reload_begin_def reload_resume_def
  reload_def pageChanged_target_def pageChanged_begin_def pageChanged_resume_def
  pageChanged_def pageChanged_request_def resetToFirstPage_def requestRowsPerPage_def
  index_at_def truthy_def is_true_def Let_def

subsection \<open>The two halves of a navigation\<close>

lemma pageChanged_request_eq:
  "pageChanged_request offset c =
     \<lparr>req_pageSize = pageSize (state c),
      req_pageToken = index_at (tokenList (state c)) (pageChanged_target offset c)\<rparr>"
  by (simp add: pageChanged_request_def pageChanged_begin_def reload_begin_def
      reload_request_def Let_def)

text \<open>A navigation asks for the page size it already has, so only the busy flag is set.\<close>

lemma pageChanged_begin_eq:
  "pageChanged_begin offset c =
     ((pageChanged_target offset c, maxPageIndex (state c)),
      pageChanged_request offset c,
      setStateSafe (\<lambda>s. s\<lparr>isBusy := True\<rparr>) c)"
  by (cases c) (simp add: pageChanged_request_def pageChanged_begin_def reload_begin_def
      reload_request_def Let_def setStateSafe_def)

lemma pageChanged_rejected:
  assumes "props_reload (pageChanged_request offset c) = Inl e"
  shows "pageChanged props_reload teardown offset c =
           (Inl e, setStateSafe (\<lambda>s. s\<lparr>isBusy := False\<rparr>)
                     (while_pending teardown (setStateSafe (\<lambda>s. s\<lparr>isBusy := True\<rparr>) c)))"
  using assms
  by (simp add: pageChanged_def pageChanged_begin_eq pageChanged_resume_def reload_resume_def)

lemma pageChanged_resolved:
  assumes "props_reload (pageChanged_request offset c) = Inr t"
  shows "pageChanged props_reload teardown offset c =
           (Inr (),
            (let c1 = setStateSafe (\<lambda>s. s\<lparr>isBusy := False\<rparr>)
                        (while_pending teardown (setStateSafe (\<lambda>s. s\<lparr>isBusy := True\<rparr>) c));
                 P = pageChanged_target offset c
             in if truthy t
                then setStateSafe (\<lambda>s. s\<lparr>currentPage := P, maxPageIndex := maxPageIndex (state c)\<rparr>)
                       (if P + 1 = int (length (tokenList (state c1)))
                        then tokenList_push t c1 else c1)
                else setStateSafe (\<lambda>s. s\<lparr>currentPage := P, maxPageIndex := P\<rparr>) c1))"
  using assms
  by (simp add: pageChanged_def pageChanged_begin_eq pageChanged_resume_def reload_resume_def Let_def)

lemma tokenList_setStateSafe_busy [simp]:
  "tokenList (state (setStateSafe (\<lambda>s. s\<lparr>isBusy := b\<rparr>) c)) = tokenList (state c)"
  by (simp add: setStateSafe_def)

lemma tokenList_while_pending [simp]:
  "tokenList (state (while_pending teardown c)) = tokenList (state c)"
  by (simp add: while_pending_def componentWillUnmount_def)

lemma pageChanged_target_range:
  assumes "0 \<le> maxPageIndex (state c)"
  shows "0 \<le> pageChanged_target k c \<and> pageChanged_target k c \<le> maxPageIndex (state c)"
  using assms by (simp add: pageChanged_target_def Let_def)

lemma pageChanged_target_forward:
  assumes "0 < k" and "currentPage (state c) = maxPageIndex (state c)"
  shows "pageChanged_target k c = maxPageIndex (state c)"
  using assms by (simp add: pageChanged_target_def Let_def)

text \<open>The page index moves only when the fetch resolves on a component that is still mounted.\<close>

lemma pageChanged_currentPage:
  "currentPage (state (snd (pageChanged f td k c))) =
     (if (\<exists>t. f (pageChanged_request k c) = Inr t) \<and> isMounted c \<and> \<not> td
      then pageChanged_target k c else currentPage (state c))"
proof (cases "f (pageChanged_request k c)")
  case (Inl e)
  then show ?thesis
    by (simp add: pageChanged_rejected setStateSafe_def while_pending_def componentWillUnmount_def)
next
  case (Inr t)
  then show ?thesis
    by (simp add: pageChanged_resolved Let_def setStateSafe_def tokenList_push_def
      while_pending_def componentWillUnmount_def)
qed

lemma requestRowsPerPage_request:
  "reload_begin \<lparr>lr_pageSize = Some newSize, lr_pageToken = Some (Some [])\<rparr> c =
     (\<lparr>req_pageSize = newSize, req_pageToken = Some []\<rparr>,
      setStateSafe (\<lambda>s. s\<lparr>isBusy := True, pageSize := newSize\<rparr>) c)"
  by (simp add: reload_begin_def reload_request_def Let_def)

text \<open>Once the component is gone, the reconciliation can still write: the in-place push.\<close>

lemma pageChanged_resume_unmounted:
  assumes "\<not> isMounted c"
  shows "pageChanged_resume (P, m) (Inr t) c =
           (Inr (), if truthy t \<and> P + 1 = int (length (tokenList (state c)))
                    then tokenList_push t c else c)"
  using assms
  by (simp add: pageChanged_resume_def reload_resume_def setStateSafe_def tokenList_push_def)

subsection \<open>The token list only grows at the frontier\<close>

text \<open>
  Claim C1. When the fetch of \<open>_pageChanged\<close> resolves with a non-empty next-page token
  \<open>t\<close>: if the target page plus one equals the length of \<open>tokenList\<close>, the token is appended
  and the list is longer by exactly one; otherwise \<open>tokenList\<close> is unchanged. In both cases
  the tokens recorded before are still there, in their places.
\<close>

theorem pageChanged_tokenList_frontier:
  assumes "props_reload (pageChanged_request offset c) = Inr t" and "truthy t"
  shows "(let old = tokenList (state c);
              new = tokenList (state (snd (pageChanged props_reload teardown offset c)))
          in (pageChanged_target offset c + 1 = int (length old)
                \<longrightarrow> new = old @ [t] \<and> length new = length old + 1)
           \<and> (pageChanged_target offset c + 1 \<noteq> int (length old) \<longrightarrow> new = old)
           \<and> take (length old) new = old)"
  using assms
  by (simp add: pageChanged_resolved Let_def setStateSafe_def tokenList_push_def
      while_pending_def componentWillUnmount_def)

text \<open>
  The first load records \<open>T1\<close>; loading page 0 again, now answered with \<open>T2\<close>, records
  nothing.
\<close>

theorem pageChanged_tokenList_frontier_witness:
  "truthy ''T1''
   \<and> tokenList (state (snd (pageChanged (\<lambda>_. Inr ''T1'') False 0 constructor))) = [[], ''T1'']
   \<and> tokenList (state (snd (pageChanged (\<lambda>_. Inr ''T2'') False 0
        (snd (pageChanged (\<lambda>_. Inr ''T1'') False 0 constructor))))) = [[], ''T1'']"
proof -
  let ?c1 = "snd (pageChanged (\<lambda>_. Inr ''T1'') False 0 constructor)"
  have t1: "truthy ''T1''" and t2: "truthy ''T2''" by (simp_all add: truthy_def)
  have f1: "(\<lambda>_. Inr ''T1'') (pageChanged_request 0 constructor) = Inr ''T1''" by simp
  have f2: "(\<lambda>_. Inr ''T2'') (pageChanged_request 0 ?c1) = Inr ''T2''" by simp
  have a: "tokenList (state ?c1) = [[], ''T1'']"
    using pageChanged_tokenList_frontier [where props_reload = "\<lambda>_. Inr ''T1''"
        and offset = 0 and c = constructor and t = "''T1''" and teardown = False, OF f1 t1]
    by (simp add: table_defs)
  have b: "pageChanged_target 0 ?c1 = 0" by (simp add: table_defs)
  have "tokenList (state (snd (pageChanged (\<lambda>_. Inr ''T2'') False 0 ?c1))) = [[], ''T1'']"
    using pageChanged_tokenList_frontier [where props_reload = "\<lambda>_. Inr ''T2''"
        and offset = 0 and c = ?c1 and t = "''T2''" and teardown = False, OF f2 t2] a b
    by (simp add: Let_def)
  with t1 a show ?thesis by simp
qed

subsection \<open>A rejected fetch\<close>

text \<open>
  Claim C2. When the fetch of a navigation (\<open>_pageChanged\<close>) rejects, the rejection reaches
  the caller, and \<open>currentPage\<close>, \<open>tokenList\<close> and \<open>maxPageIndex\<close> (and \<open>pageSize\<close>) keep the
  values they had before the navigation. The cleanup of \<open>reload\<close> resets \<open>isBusy\<close> to false
  on a component that is mounted when the fetch settles (the cleanup writes through
  \<open>setStateSafe\<close>).
\<close>

theorem pageChanged_rejected_keeps_cursor:
  assumes "props_reload (pageChanged_request offset c) = Inl e"
  shows "(let r = pageChanged props_reload teardown offset c; s = state c; s' = state (snd r)
          in fst r = Inl e
           \<and> currentPage s' = currentPage s
           \<and> tokenList s' = tokenList s
           \<and> maxPageIndex s' = maxPageIndex s
           \<and> pageSize s' = pageSize s
           \<and> (isMounted c \<and> \<not> teardown \<longrightarrow> \<not> isBusy s'))"
  using assms
  by (simp add: pageChanged_rejected Let_def setStateSafe_def
      while_pending_def componentWillUnmount_def)

theorem pageChanged_rejected_keeps_cursor_witness:
  "(let r = pageChanged (\<lambda>_. Inl (Error ''down'')) False 1
              (snd (pageChanged (\<lambda>_. Inr ''T1'') False 0 constructor))
    in fst r = Inl (Error ''down'')
     \<and> state (snd r) = \<lparr>currentPage = 0, isBusy = False, maxPageIndex = MAX_SAFE_INTEGER,
                         pageSize = 10, tokenList = [[], ''T1'']\<rparr>)"
proof -
  let ?c = "snd (pageChanged (\<lambda>_. Inr ''T1'') False 0 constructor)"
  have f: "(\<lambda>_. Inl (Error ''down'')) (pageChanged_request 1 ?c) = Inl (Error ''down'')"
    by simp
  have c: "?c = \<lparr>state = \<lparr>currentPage = 0, isBusy = False, maxPageIndex = MAX_SAFE_INTEGER,
                         pageSize = 10, tokenList = [[], ''T1'']\<rparr>, isMounted = True\<rparr>"
    by (simp add: table_defs)
  show ?thesis
    using pageChanged_rejected_keeps_cursor [where props_reload = "\<lambda>_. Inl (Error ''down'')"
        and offset = 1 and c = ?c and e = "Error ''down''" and teardown = False, OF f]
    unfolding c by (simp add: Let_def)
qed

subsection \<open>The end of the data\<close>

text \<open>At the bound, a forward navigation changes neither the bound nor the page.\<close>

lemma pageChanged_maxPageIndex_forward:
  assumes "0 < k" and "currentPage (state c) = maxPageIndex (state c)"
  shows "maxPageIndex (state (snd (pageChanged f td k c))) = maxPageIndex (state c)"
proof (cases "f (pageChanged_request k c)")
  case (Inl e)
  then show ?thesis
    by (simp add: pageChanged_rejected setStateSafe_def while_pending_def componentWillUnmount_def)
next
  case (Inr t)
  then show ?thesis
    using pageChanged_target_forward [OF assms]
    by (simp add: pageChanged_resolved Let_def setStateSafe_def tokenList_push_def
      while_pending_def componentWillUnmount_def)
qed

lemma pageChanged_currentPage_forward:
  assumes "0 < k" and "currentPage (state c) = maxPageIndex (state c)"
  shows "currentPage (state (snd (pageChanged f td k c))) = currentPage (state c)"
  using pageChanged_target_forward [OF assms] assms(2)
  by (simp add: pageChanged_currentPage)

lemma run_forward_keep:
  assumes "currentPage (state c) = maxPageIndex (state c)" and "list_all is_forward ops"
  shows "currentPage (state (run ops c)) = currentPage (state c)
       \<and> maxPageIndex (state (run ops c)) = maxPageIndex (state c)"
  using assms
proof (induction ops arbitrary: c)
  case Nil
  then show ?case by simp
next
  case (Cons x ops)
  from Cons.prems(2) have fx: "is_forward x" and rest: "list_all is_forward ops"
    by simp_all
  from fx obtain k f td where x: "x = GoToPage k f td" and k: "0 < k"
    by (cases x) simp_all
  have cp: "currentPage (state (perform x c)) = currentPage (state c)"
    and mp: "maxPageIndex (state (perform x c)) = maxPageIndex (state c)"
    using pageChanged_currentPage_forward [OF k Cons.prems(1)]
      pageChanged_maxPageIndex_forward [OF k Cons.prems(1)]
    by (simp_all add: x)
  have eq: "currentPage (state (perform x c)) = maxPageIndex (state (perform x c))"
    using cp mp Cons.prems(1) by simp
  from Cons.IH [OF eq rest] cp mp show ?case by simp
qed

text \<open>
  Claim C3. On a mounted component, when the fetch of \<open>_pageChanged\<close> resolves with an
  empty next-page token at the clamped target page \<open>P\<close>, then afterwards
  \<open>maxPageIndex = P\<close> and \<open>currentPage = P\<close>. From then on, after any number of completed
  forward navigations (positive offsets, whatever their fetches answer, torn down or
  not), \<open>currentPage\<close> and \<open>maxPageIndex\<close> are still \<open>P\<close>, and one more navigation with a
  positive offset has target \<open>P\<close> again and leaves both at \<open>P\<close>.
\<close>

theorem pageChanged_end_of_data:
  assumes "isMounted c" and "\<not> teardown"
    and "props_reload (pageChanged_request offset c) = Inr []"
  shows "(let P = pageChanged_target offset c;
              c' = snd (pageChanged props_reload teardown offset c)
          in maxPageIndex (state c') = P \<and> currentPage (state c') = P
           \<and> (\<forall>ops. list_all is_forward ops \<longrightarrow>
                (let c'' = run ops c'
                 in currentPage (state c'') = P \<and> maxPageIndex (state c'') = P
                  \<and> (\<forall>k f td. 0 < k \<longrightarrow>
                        pageChanged_target k c'' = P
                      \<and> currentPage (state (snd (pageChanged f td k c''))) = P
                      \<and> maxPageIndex (state (snd (pageChanged f td k c''))) = P))))"
proof -
  let ?P = "pageChanged_target offset c"
  let ?c' = "snd (pageChanged props_reload teardown offset c)"
  have m: "maxPageIndex (state ?c') = ?P" and p: "currentPage (state ?c') = ?P"
    using assms
    by (simp_all add: pageChanged_resolved Let_def setStateSafe_def truthy_def while_pending_def)
  have eq: "currentPage (state ?c') = maxPageIndex (state ?c')"
    using m p by simp
  have later: "currentPage (state (run ops ?c')) = ?P \<and> maxPageIndex (state (run ops ?c')) = ?P
      \<and> (\<forall>k f td. 0 < k \<longrightarrow>
            pageChanged_target k (run ops ?c') = ?P
          \<and> currentPage (state (snd (pageChanged f td k (run ops ?c')))) = ?P
          \<and> maxPageIndex (state (snd (pageChanged f td k (run ops ?c')))) = ?P)"
    if fw: "list_all is_forward ops" for ops
  proof -
    let ?d = "run ops ?c'"
    from run_forward_keep [OF eq fw] m p
    have cd: "currentPage (state ?d) = ?P" and md: "maxPageIndex (state ?d) = ?P"
      by simp_all
    have eqd: "currentPage (state ?d) = maxPageIndex (state ?d)"
      using cd md by simp
    have "pageChanged_target k ?d = ?P
        \<and> currentPage (state (snd (pageChanged f td k ?d))) = ?P
        \<and> maxPageIndex (state (snd (pageChanged f td k ?d))) = ?P" if k: "0 < k" for k f td
      using pageChanged_target_forward [OF k eqd] pageChanged_currentPage_forward [OF k eqd]
        pageChanged_maxPageIndex_forward [OF k eqd] cd md
      by simp
    with cd md show ?thesis by blast
  qed
  show ?thesis
    unfolding Let_def using m p later by blast
qed

text \<open>
  Page 1 answers with no further token. Two forward navigations follow, both answered
  with a non-empty token: the cursor is still on page 1 with bound 1, and a third one,
  by 5, has target 1.
\<close>

theorem pageChanged_end_of_data_witness:
  "(let c = snd (pageChanged (\<lambda>_. Inr ''T1'') False 0 constructor);
        c' = snd (pageChanged (\<lambda>_. Inr []) False 1 c);
        c'' = run [GoToPage 1 (\<lambda>_. Inr ''T2'') False, GoToPage 3 (\<lambda>_. Inr ''T3'') False] c'
    in isMounted c \<and> maxPageIndex (state c') = 1 \<and> currentPage (state c') = 1
     \<and> list_all is_forward
          [GoToPage 1 (\<lambda>_. Inr ''T2'') False, GoToPage 3 (\<lambda>_. Inr ''T3'') False]
     \<and> currentPage (state c'') = 1 \<and> maxPageIndex (state c'') = 1
     \<and> pageChanged_target 5 c'' = 1
     \<and> currentPage (state (snd (pageChanged (\<lambda>_. Inr ''T4'') False 5 c''))) = 1
     \<and> maxPageIndex (state (snd (pageChanged (\<lambda>_. Inr ''T4'') False 5 c''))) = 1)"
proof -
  let ?c = "snd (pageChanged (\<lambda>_. Inr ''T1'') False 0 constructor)"
  let ?c' = "snd (pageChanged (\<lambda>_. Inr []) False 1 ?c)"
  let ?ops = "[GoToPage 1 (\<lambda>_. Inr ''T2'') False, GoToPage 3 (\<lambda>_. Inr ''T3'') False]"
  have c: "?c = \<lparr>state = \<lparr>currentPage = 0, isBusy = False, maxPageIndex = MAX_SAFE_INTEGER,
                         pageSize = 10, tokenList = [[], ''T1'']\<rparr>, isMounted = True\<rparr>"
    by (simp add: table_defs)
  have m: "isMounted ?c" unfolding c by simp
  have nt: "\<not> False" by simp
  have f: "(\<lambda>_. Inr []) (pageChanged_request 1 ?c) = Inr []" by simp
  have P: "pageChanged_target 1 ?c = 1"
    unfolding c by (simp add: pageChanged_target_def MAX_SAFE_INTEGER_def)
  have fw: "list_all is_forward ?ops" by simp
  note r = pageChanged_end_of_data [where props_reload = "\<lambda>_. Inr []" and offset = 1
      and c = ?c and teardown = False, OF m nt f, unfolded Let_def P]
  from r have a: "maxPageIndex (state ?c') = 1 \<and> currentPage (state ?c') = 1"
    by simp
  from r have all: "\<forall>ops. list_all is_forward ops \<longrightarrow>
      currentPage (state (run ops ?c')) = 1 \<and> maxPageIndex (state (run ops ?c')) = 1
      \<and> (\<forall>k f td. 0 < k \<longrightarrow>
            pageChanged_target k (run ops ?c') = 1
          \<and> currentPage (state (snd (pageChanged f td k (run ops ?c')))) = 1
          \<and> maxPageIndex (state (snd (pageChanged f td k (run ops ?c')))) = 1)"
    by simp
  from all [rule_format, OF fw]
  have b: "currentPage (state (run ?ops ?c')) = 1 \<and> maxPageIndex (state (run ?ops ?c')) = 1"
    and fa: "\<forall>k f td. 0 < k \<longrightarrow>
            pageChanged_target k (run ?ops ?c') = 1
          \<and> currentPage (state (snd (pageChanged f td k (run ?ops ?c')))) = 1
          \<and> maxPageIndex (state (snd (pageChanged f td k (run ?ops ?c')))) = 1"
    by blast+
  have k5: "(0::int) < 5" by simp
  from fa [rule_format, OF k5]
  have d: "pageChanged_target 5 (run ?ops ?c') = 1
      \<and> currentPage (state (snd (pageChanged (\<lambda>_. Inr ''T4'') False 5 (run ?ops ?c')))) = 1
      \<and> maxPageIndex (state (snd (pageChanged (\<lambda>_. Inr ''T4'') False 5 (run ?ops ?c')))) = 1"
    by blast
  from m a fw b d show ?thesis unfolding Let_def by blast
qed

subsection \<open>The target page and the token presented\<close>

text \<open>
  Claim C4. For every offset and every state, \<open>_pageChanged\<close> hands the fetch collaborator
  the current page size and the token \<open>tokenList[target]\<close>, and continues with what the
  collaborator answers to that request. The target is \<open>currentPage + offset\<close> clamped into
  \<open>[0, maxPageIndex]\<close> (a range that is not empty since \<open>0 \<le> maxPageIndex\<close>): \<open>0\<close> below the
  range, the sum itself inside, \<open>maxPageIndex\<close> above. Going back by one from page 1, with
  the empty string at slot 0, fetches with the empty token.
\<close>

theorem pageChanged_target_and_token:
  "(let s = state c; target = pageChanged_target offset c
    in pageChanged_request offset c =
         \<lparr>req_pageSize = pageSize s, req_pageToken = index_at (tokenList s) target\<rparr>
     \<and> pageChanged props_reload teardown offset c =
         pageChanged_resume (target, maxPageIndex s)
           (props_reload (pageChanged_request offset c))
           (while_pending teardown (snd (snd (pageChanged_begin offset c))))
     \<and> (0 \<le> maxPageIndex s \<longrightarrow>
          0 \<le> target \<and> target \<le> maxPageIndex s
        \<and> (currentPage s + offset < 0 \<longrightarrow> target = 0)
        \<and> (0 \<le> currentPage s + offset \<and> currentPage s + offset \<le> maxPageIndex s
             \<longrightarrow> target = currentPage s + offset)
        \<and> (maxPageIndex s < currentPage s + offset \<longrightarrow> target = maxPageIndex s))
     \<and> (currentPage s = 1 \<and> 0 \<le> maxPageIndex s \<and> index_at (tokenList s) 0 = Some []
          \<longrightarrow> req_pageToken (pageChanged_request (- 1) c) = Some []))"
  by (simp add: pageChanged_request_eq Let_def pageChanged_def pageChanged_begin_eq)
     (auto simp add: pageChanged_target_def Let_def)

theorem pageChanged_target_and_token_witness:
  "(let c = run [GoToPage 0 (\<lambda>_. Inr ''T1'') False, GoToPage 1 (\<lambda>_. Inr ''T2'') False]
              constructor
    in currentPage (state c) = 1 \<and> 0 \<le> maxPageIndex (state c)
     \<and> index_at (tokenList (state c)) 0 = Some []
     \<and> pageChanged_target (- 1) c = 0
     \<and> pageChanged_request (- 1) c = \<lparr>req_pageSize = 10, req_pageToken = Some []\<rparr>)"
proof -
  let ?c = "run [GoToPage 0 (\<lambda>_. Inr ''T1'') False, GoToPage 1 (\<lambda>_. Inr ''T2'') False]
              constructor"
  have c: "?c = \<lparr>state = \<lparr>currentPage = 1, isBusy = False, maxPageIndex = MAX_SAFE_INTEGER,
                         pageSize = 10, tokenList = [[], ''T1'', ''T2'']\<rparr>, isMounted = True\<rparr>"
    by (simp add: table_defs)
  have h: "currentPage (state ?c) = 1" "0 \<le> maxPageIndex (state ?c)"
    "index_at (tokenList (state ?c)) 0 = Some []" "currentPage (state ?c) + (- 1) = 0"
    "pageSize (state ?c) = 10"
    unfolding c by (simp_all add: MAX_SAFE_INTEGER_def index_at_def)
  from pageChanged_target_and_token [of ?c "- 1", unfolded Let_def] h
  have "pageChanged_target (- 1) ?c = 0
      \<and> pageChanged_request (- 1) ?c = \<lparr>req_pageSize = 10, req_pageToken = Some []\<rparr>"
    by simp
  with h show ?thesis by (simp add: Let_def)
qed

section \<open>Properties of changing the page size\<close>

text \<open>
  Claim C5. On a mounted component, when \<open>_requestRowsPerPage\<close> completes with a resolved
  fetch (asked for the empty token and the new size): \<open>currentPage\<close> is 0 and \<open>pageSize\<close> is
  the new size; with a non-empty next-page token \<open>t\<close> the token list is \<open>['', t]\<close> and
  \<open>maxPageIndex\<close> is \<open>Number.MAX_SAFE_INTEGER\<close>, otherwise the token list is \<open>['']\<close> and
  \<open>maxPageIndex\<close> is 0. Nothing of the old token list is kept.
\<close>

theorem requestRowsPerPage_resets_cursor:
  assumes "isMounted c" and "\<not> teardown"
    and "props_reload \<lparr>req_pageSize = newSize, req_pageToken = Some []\<rparr> = Inr t"
  shows "(let r = requestRowsPerPage props_reload teardown newSize c; s' = state (snd r)
          in fst r = Inr ()
           \<and> currentPage s' = 0
           \<and> pageSize s' = newSize
           \<and> (truthy t \<longrightarrow> tokenList s' = [[], t] \<and> maxPageIndex s' = MAX_SAFE_INTEGER)
           \<and> (\<not> truthy t \<longrightarrow> tokenList s' = [[]] \<and> maxPageIndex s' = 0))"
  using assms
  by (simp add: requestRowsPerPage_def reload_def requestRowsPerPage_request reload_resume_def
      resetToFirstPage_def Let_def setStateSafe_def while_pending_def)

text \<open>From page 1 of a three-token history, a new size of 20 answered with \<open>N1\<close>.\<close>

theorem requestRowsPerPage_resets_cursor_witness:
  "(let c = run [GoToPage 0 (\<lambda>_. Inr ''T1'') False, GoToPage 1 (\<lambda>_. Inr ''T2'') False]
              constructor;
        r = requestRowsPerPage (\<lambda>_. Inr ''N1'') False 20 c
    in isMounted c \<and> tokenList (state c) = [[], ''T1'', ''T2''] \<and> currentPage (state c) = 1
     \<and> fst r = Inr () \<and> currentPage (state (snd r)) = 0 \<and> pageSize (state (snd r)) = 20
     \<and> tokenList (state (snd r)) = [[], ''N1'']
     \<and> maxPageIndex (state (snd r)) = MAX_SAFE_INTEGER)"
proof -
  let ?c = "run [GoToPage 0 (\<lambda>_. Inr ''T1'') False, GoToPage 1 (\<lambda>_. Inr ''T2'') False]
              constructor"
  have c: "?c = \<lparr>state = \<lparr>currentPage = 1, isBusy = False, maxPageIndex = MAX_SAFE_INTEGER,
                         pageSize = 10, tokenList = [[], ''T1'', ''T2'']\<rparr>, isMounted = True\<rparr>"
    by (simp add: table_defs)
  have m: "isMounted ?c" unfolding c by simp
  have nt: "\<not> False" by simp
  have f: "(\<lambda>_. Inr ''N1'') \<lparr>req_pageSize = 20, req_pageToken = Some []\<rparr> = Inr ''N1''"
    by simp
  have t: "truthy ''N1''" by (simp add: truthy_def)
  have pre: "tokenList (state ?c) = [[], ''T1'', ''T2'']" "currentPage (state ?c) = 1"
    unfolding c by simp_all
  from requestRowsPerPage_resets_cursor [where props_reload = "\<lambda>_. Inr ''N1''"
      and newSize = 20 and c = ?c and t = "''N1''" and teardown = False, OF m nt f,
      unfolded Let_def] t m pre
  show ?thesis by (simp add: Let_def)
qed

text \<open>
  Claim C9. \<open>reload\<close> writes the requested page size into the state before the fetch is
  awaited, and its cleanup resets only \<open>isBusy\<close>. So when the fetch of a page-size change
  rejects on a mounted component, the rejection reaches the caller, \<open>pageSize\<close> holds the
  newly requested value, and \<open>currentPage\<close>, \<open>tokenList\<close> and \<open>maxPageIndex\<close> hold their old
  values.
\<close>

theorem requestRowsPerPage_rejected_keeps_pageSize:
  assumes "isMounted c"
    and "props_reload \<lparr>req_pageSize = newSize, req_pageToken = Some []\<rparr> = Inl e"
  shows "(let r = requestRowsPerPage props_reload teardown newSize c; s = state c; s' = state (snd r)
          in pageSize (state (snd (reload_begin
                \<lparr>lr_pageSize = Some newSize, lr_pageToken = Some (Some [])\<rparr> c))) = newSize
           \<and> fst r = Inl e
           \<and> pageSize s' = newSize
           \<and> currentPage s' = currentPage s
           \<and> tokenList s' = tokenList s
           \<and> maxPageIndex s' = maxPageIndex s)"
  using assms
  by (simp add: requestRowsPerPage_def reload_def requestRowsPerPage_request reload_resume_def
      Let_def setStateSafe_def while_pending_def componentWillUnmount_def)

theorem requestRowsPerPage_rejected_keeps_pageSize_witness:
  "(let r = requestRowsPerPage (\<lambda>_. Inl (Error ''down'')) False 50 constructor
    in isMounted constructor \<and> pageSize (state constructor) = 10
     \<and> fst r = Inl (Error ''down'') \<and> pageSize (state (snd r)) = 50
     \<and> currentPage (state (snd r)) = 0 \<and> tokenList (state (snd r)) = [[]]
     \<and> maxPageIndex (state (snd r)) = MAX_SAFE_INTEGER)"
proof -
  have m: "isMounted constructor" by (simp add: constructor_def)
  have f: "(\<lambda>_. Inl (Error ''down'')) \<lparr>req_pageSize = 50, req_pageToken = Some []\<rparr>
             = Inl (Error ''down'')"
    by simp
  have pre: "pageSize (state constructor) = 10" "currentPage (state constructor) = 0"
    "tokenList (state constructor) = [[]]" "maxPageIndex (state constructor) = MAX_SAFE_INTEGER"
    by (simp_all add: constructor_def)
  from requestRowsPerPage_rejected_keeps_pageSize
      [where props_reload = "\<lambda>_. Inl (Error ''down'')" and newSize = 50
        and c = constructor and e = "Error ''down''" and teardown = False, OF m f,
      unfolded Let_def] m pre
  show ?thesis by (simp add: Let_def)
qed

section \<open>The cursor invariant\<close>

lemma index_at_0_append:
  assumes "index_at xs 0 = Some v"
  shows "index_at (xs @ ys) 0 = Some v"
  using assms by (cases xs) (simp_all add: index_at_def)

lemma cursor_inv_pageChanged:
  assumes "cursor_inv c"
  shows "cursor_inv (snd (pageChanged f td k c))"
proof -
  from assms have mx: "0 \<le> maxPageIndex (state c)" by (simp add: cursor_inv_def)
  note rng = pageChanged_target_range [OF mx, of k]
  show ?thesis
  proof (cases "f (pageChanged_request k c)")
    case (Inl e)
    with assms show ?thesis
      by (simp add: pageChanged_rejected cursor_inv_def setStateSafe_def while_pending_def
          componentWillUnmount_def)
  next
    case (Inr t)
    with assms rng show ?thesis
      by (simp add: pageChanged_resolved cursor_inv_def Let_def setStateSafe_def
          tokenList_push_def while_pending_def componentWillUnmount_def index_at_0_append)
  qed
qed

lemma cursor_inv_requestRowsPerPage:
  assumes "cursor_inv c"
  shows "cursor_inv (snd (requestRowsPerPage f td n c))"
proof (cases "f \<lparr>req_pageSize = n, req_pageToken = Some []\<rparr>")
  case (Inl e)
  with assms show ?thesis
    by (simp add: requestRowsPerPage_def reload_def requestRowsPerPage_request reload_resume_def
        cursor_inv_def setStateSafe_def while_pending_def componentWillUnmount_def)
next
  case (Inr t)
  with assms show ?thesis
    by (auto simp add: requestRowsPerPage_def reload_def requestRowsPerPage_request
        reload_resume_def resetToFirstPage_def cursor_inv_def setStateSafe_def while_pending_def
        componentWillUnmount_def index_at_def MAX_SAFE_INTEGER_def split: if_splits)
qed

lemma cursor_inv_perform:
  assumes "cursor_inv c"
  shows "cursor_inv (perform x c)"
  using assms
  by (cases x) (simp_all add: cursor_inv_pageChanged cursor_inv_requestRowsPerPage)

lemma cursor_inv_run:
  assumes "cursor_inv c"
  shows "cursor_inv (run ops c)"
  using assms
  by (induction ops arbitrary: c) (simp_all add: cursor_inv_perform)

lemma cursor_inv_constructor: "cursor_inv constructor"
  by (simp add: cursor_inv_def constructor_def MAX_SAFE_INTEGER_def index_at_def)

text \<open>
  Claim C6. From the state the constructor builds, after any sequence of completed
  operations (navigations by any offset and page-size changes, whose fetches may resolve
  or reject, on a component that may be torn down meanwhile), \<open>currentPage\<close> lies in
  \<open>[0, maxPageIndex]\<close> and \<open>tokenList[0]\<close> is the empty string.
\<close>

theorem run_cursor_invariant:
  "(let s = state (run ops constructor)
    in 0 \<le> currentPage s \<and> currentPage s \<le> maxPageIndex s
     \<and> index_at (tokenList s) 0 = Some [])"
  using cursor_inv_run [OF cursor_inv_constructor, of ops]
  by (simp add: cursor_inv_def Let_def)

theorem run_cursor_invariant_witness:
  "(let s = state (run [GoToPage 0 (\<lambda>_. Inr ''T1'') False, GoToPage 1 (\<lambda>_. Inr []) False,
                        ChangePageSize 20 (\<lambda>_. Inl (Error ''down'')) False,
                        GoToPage (- 7) (\<lambda>_. Inr ''T9'') True] constructor)
    in currentPage s = 1 \<and> maxPageIndex s = 1 \<and> tokenList s = [[], ''T1''] \<and> pageSize s = 20
     \<and> 0 \<le> currentPage s \<and> currentPage s \<le> maxPageIndex s
     \<and> index_at (tokenList s) 0 = Some [])"
  using run_cursor_invariant [of "[GoToPage 0 (\<lambda>_. Inr ''T1'') False,
                        GoToPage 1 (\<lambda>_. Inr []) False,
                        ChangePageSize 20 (\<lambda>_. Inl (Error ''down'')) False,
                        GoToPage (- 7) (\<lambda>_. Inr ''T9'') True]"]
  by (simp add: table_defs)

section \<open>Teardown while a fetch is pending\<close>

text \<open>
  Claim C7 says that once the component is unmounted while a fetch is pending, the
  reconciliation leaves all of \<open>currentPage\<close>, \<open>maxPageIndex\<close>, \<open>pageSize\<close>, \<open>isBusy\<close> and
  \<open>tokenList\<close> as they are. The writes that go through \<open>setStateSafe\<close> are indeed dropped,
  but the push onto \<open>this.state.tokenList\<close> is not guarded. The first load of a fresh
  component, torn down while its fetch is pending and then answered with \<open>T1\<close>: the token
  list \<open>['']\<close> of the unmounted component becomes \<open>['', 'T1']\<close>.
\<close>

theorem pageChanged_teardown_pushes_token:
  "(let (frame, request, c1) = pageChanged_begin 0 constructor;
        pending = while_pending True c1;
        final = snd (pageChanged_resume frame (Inr ''T1'') pending)
    in request = \<lparr>req_pageSize = 10, req_pageToken = Some []\<rparr>
     \<and> \<not> isMounted pending
     \<and> tokenList (state pending) = [[]]
     \<and> tokenList (state final) = [[], ''T1'']
     \<and> final = snd (pageChanged (\<lambda>_. Inr ''T1'') True 0 constructor))"
  by (simp add: table_defs)

section \<open>Properties of row selection\<close>

subsection \<open>Searching and slicing\<close>

lemma indexOf_ge: "- 1 \<le> indexOf xs x"
  by (induction xs) (auto simp add: Let_def)

lemma indexOf_absent: "indexOf xs x = - 1 \<longleftrightarrow> x \<notin> set xs"
proof (induction xs)
  case Nil
  then show ?case by simp
next
  case (Cons y ys)
  have "indexOf ys x + 1 \<noteq> - 1"
    using indexOf_ge [of ys x] by simp
  with Cons show ?case
    by (simp add: Let_def)
qed

lemma indexOf_present:
  assumes "x \<in> set xs"
  shows "0 \<le> indexOf xs x \<and> nat (indexOf xs x) < length xs
       \<and> xs ! nat (indexOf xs x) = x
       \<and> (\<forall>j < nat (indexOf xs x). xs ! j \<noteq> x)"
  using assms
proof (induction xs)
  case Nil
  then show ?case by simp
next
  case (Cons y ys)
  show ?case
  proof (cases "y = x")
    case True
    then show ?thesis by simp
  next
    case False
    with Cons.prems have mem: "x \<in> set ys" by simp
    from Cons.IH [OF mem] have ih: "0 \<le> indexOf ys x" "nat (indexOf ys x) < length ys"
      "ys ! nat (indexOf ys x) = x" "\<forall>j < nat (indexOf ys x). ys ! j \<noteq> x"
      by simp_all
    from ih(1) have ne: "indexOf ys x \<noteq> - 1" by simp
    have idx: "indexOf (y # ys) x = indexOf ys x + 1"
      using False ne by (simp add: Let_def)
    have n: "nat (indexOf ys x + 1) = Suc (nat (indexOf ys x))"
      using ih(1) by simp
    show ?thesis
      unfolding idx n using ih False
      by (auto simp add: nth_Cons split: nat.splits)
  qed
qed

lemma splice_remove1:
  assumes "x \<in> set xs"
  shows "take (nat (indexOf xs x)) xs @ drop (Suc (nat (indexOf xs x))) xs = remove1 x xs"
  using assms
proof (induction xs)
  case Nil
  then show ?case by simp
next
  case (Cons y ys)
  show ?case
  proof (cases "y = x")
    case True
    then show ?thesis by simp
  next
    case False
    with Cons.prems have mem: "x \<in> set ys" by simp
    have ge: "0 \<le> indexOf ys x" using indexOf_present [OF mem] by simp
    then have ne: "indexOf ys x \<noteq> - 1" by simp
    have n: "nat (indexOf ys x + 1) = Suc (nat (indexOf ys x))"
      using ge by simp
    show ?thesis
      using False ne n Cons.IH [OF mem] by (simp add: Let_def)
  qed
qed

lemma slice_prefix:
  assumes "0 \<le> k" and "nat k \<le> length xs"
  shows "slice xs 0 k = take (nat k) xs"
  using assms by (simp add: slice_def rel_index_def Let_def)

lemma slice_from_suffix:
  assumes "0 \<le> k"
  shows "slice_from xs k = drop (nat k) xs"
proof (cases "nat k \<le> length xs")
  case True
  then show ?thesis
    using assms by (simp add: slice_from_def slice_def rel_index_def Let_def min_def)
next
  case False
  then show ?thesis
    using assms by (simp add: slice_from_def slice_def rel_index_def Let_def min_def)
qed

lemma newSelected_toggle:
  assumes "\<not> is_true (useRadioButtons props)"
    and ids_def: "ids = (case selectedIds props of None \<Rightarrow> [] | Some xs \<Rightarrow> xs)"
  shows "newSelected props i =
     (if i \<in> set ids
      then take (nat (indexOf ids i)) ids @ drop (Suc (nat (indexOf ids i))) ids
      else ids @ [i])"
proof -
  show ?thesis
  proof (cases "i \<in> set ids")
    case True
    from indexOf_present [OF True] have ge: "0 \<le> indexOf ids i"
      and lt: "nat (indexOf ids i) < length ids" by simp_all
    have ne: "indexOf ids i \<noteq> - 1" using ge by simp
    have a: "slice ids 0 (indexOf ids i) = take (nat (indexOf ids i)) ids"
      using ge lt by (simp add: slice_prefix)
    have b: "slice_from ids (indexOf ids i + 1) = drop (Suc (nat (indexOf ids i))) ids"
      using ge by (simp add: slice_from_suffix nat_add_distrib)
    show ?thesis
      using assms True ne a b unfolding newSelected_def ids_def [symmetric]
      by (simp add: Let_def)
  next
    case False
    then have "indexOf ids i = - 1" by (simp add: indexOf_absent)
    then show ?thesis
      using assms False unfolding newSelected_def ids_def [symmetric]
      by (simp add: Let_def)
  qed
qed

subsection \<open>Clicking a row\<close>

text \<open>
  Claim C8. With selection enabled, \<open>handleClick\<close> passes the new selection to
  \<open>updateSelection\<close> (when the callback is supplied) and stops the event. With radio
  buttons the new selection is exactly \<open>[id]\<close>. Otherwise an id that is not selected is
  appended at the end, and an id that is selected is cut out at the position of its first
  occurrence, all other ids keeping their order; where the selection has no duplicates
  the id is then gone. Toggling the middle one of three ids leaves the outer two.
\<close>

theorem handleClick_toggle:
  assumes "disableSelection props \<noteq> Some True"
  shows "(let ids = (case selectedIds props of None \<Rightarrow> [] | Some xs \<Rightarrow> xs);
              new = newSelected props i
          in handleClick props i =
               (if updateSelection props then [UpdateSelection new] else []) @ [StopPropagation]
           \<and> (is_true (useRadioButtons props) \<longrightarrow> new = [i])
           \<and> (\<not> is_true (useRadioButtons props) \<and> i \<notin> set ids \<longrightarrow> new = ids @ [i])
           \<and> (\<not> is_true (useRadioButtons props) \<and> i \<in> set ids \<longrightarrow>
                (\<exists>k < length ids. ids ! k = i \<and> (\<forall>j < k. ids ! j \<noteq> i)
                    \<and> new = take k ids @ drop (Suc k) ids)
                \<and> new = remove1 i ids
                \<and> (distinct ids \<longrightarrow> set new = set ids - {i}))
           \<and> (\<not> is_true (useRadioButtons props) \<and> selectedIds props = Some [a, i, b]
                \<longrightarrow> new = [a, b]))"
proof -
  define ids where "ids = (case selectedIds props of None \<Rightarrow> [] | Some xs \<Rightarrow> xs)"
  have h: "handleClick props i =
      (if updateSelection props then [UpdateSelection (newSelected props i)] else [])
      @ [StopPropagation]"
    using assms by (simp add: handleClick_def)
  have r: "newSelected props i = [i]" if "is_true (useRadioButtons props)"
    using that by (simp add: newSelected_def)
  have ab: "newSelected props i = ids @ [i]"
    if "\<not> is_true (useRadioButtons props)" "i \<notin> set ids"
    using that(2) newSelected_toggle [OF that(1) ids_def, of i] by simp
  have pr: "(\<exists>k < length ids. ids ! k = i \<and> (\<forall>j < k. ids ! j \<noteq> i)
                \<and> newSelected props i = take k ids @ drop (Suc k) ids)
            \<and> newSelected props i = remove1 i ids
            \<and> (distinct ids \<longrightarrow> set (newSelected props i) = set ids - {i})"
    if nr: "\<not> is_true (useRadioButtons props)" and mem: "i \<in> set ids"
  proof -
    have eq: "newSelected props i =
        take (nat (indexOf ids i)) ids @ drop (Suc (nat (indexOf ids i))) ids"
      using mem newSelected_toggle [OF nr ids_def, of i] by simp
    have rm: "newSelected props i = remove1 i ids"
      using eq splice_remove1 [OF mem] by simp
    have ex: "\<exists>k < length ids. ids ! k = i \<and> (\<forall>j < k. ids ! j \<noteq> i)
                \<and> newSelected props i = take k ids @ drop (Suc k) ids"
      using indexOf_present [OF mem] eq by blast
    have ds: "set (newSelected props i) = set ids - {i}" if "distinct ids"
      using that rm by simp
    from ex rm ds show ?thesis by blast
  qed
  have three: "newSelected props i = [a, b]"
    if nr: "\<not> is_true (useRadioButtons props)" and s: "selectedIds props = Some [a, i, b]"
  proof -
    have "ids = [a, i, b]" using s by (simp add: ids_def)
    then show ?thesis using pr [OF nr] by auto
  qed
  show ?thesis
    unfolding ids_def [symmetric] Let_def using h r ab pr three by blast
qed

theorem handleClick_toggle_witness:
  "(let props = \<lparr>disableSelection = None, rows = [],
                 selectedIds = Some [''id1'', ''id2'', ''id3''],
                 updateSelection = True, useRadioButtons = None\<rparr>
    in disableSelection props \<noteq> Some True
     \<and> newSelected props ''id2'' = [''id1'', ''id3'']
     \<and> handleClick props ''id2'' = [UpdateSelection [''id1'', ''id3''], StopPropagation])"
proof -
  let ?props = "\<lparr>disableSelection = None, rows = [],
                 selectedIds = Some [''id1'', ''id2'', ''id3''],
                 updateSelection = True, useRadioButtons = None\<rparr>"
  have en: "disableSelection ?props \<noteq> Some True" by simp
  from handleClick_toggle [where props = ?props and i = "''id2''" and a = "''id1''"
      and b = "''id3''", OF en, unfolded Let_def]
  show ?thesis by (simp add: is_true_def Let_def)
qed

subsection \<open>The select-all handler\<close>

text \<open>
  Claim C10. \<open>handleSelectAllClick\<close> tests \<open>disableSelection\<close> only. With selection
  enabled, the callback supplied and the box checked, it passes the ids of all displayed
  rows to \<open>updateSelection\<close>; what it does never depends on \<open>useRadioButtons\<close>, although
  \<open>render\<close> draws no select-all checkbox when radio buttons are used.
\<close>

theorem handleSelectAllClick_ignores_radio:
  assumes "disableSelection props \<noteq> Some True" and "updateSelection props"
  shows "handleSelectAllClick props True = [UpdateSelection (map row_id (rows props))]
       \<and> handleSelectAllClick (props\<lparr>useRadioButtons := r\<rparr>) checked
           = handleSelectAllClick props checked
       \<and> (useRadioButtons props = Some True \<longrightarrow> \<not> render_selectAll props)"
  using assms by (simp add: handleSelectAllClick_def render_selectAll_def)

theorem handleSelectAllClick_ignores_radio_witness:
  "(let props = \<lparr>disableSelection = Some False,
                 rows = [\<lparr>row_id = ''a'', otherFields = []\<rparr>,
                         \<lparr>row_id = ''b'', otherFields = []\<rparr>],
                 selectedIds = Some [''a''],
                 updateSelection = True, useRadioButtons = Some True\<rparr>
    in disableSelection props \<noteq> Some True \<and> updateSelection props
     \<and> handleSelectAllClick props True = [UpdateSelection [''a'', ''b'']]
     \<and> \<not> render_selectAll props)"
proof -
  let ?props = "\<lparr>disableSelection = Some False,
                 rows = [\<lparr>row_id = ''a'', otherFields = []\<rparr>,
                         \<lparr>row_id = ''b'', otherFields = []\<rparr>],
                 selectedIds = Some [''a''],
                 updateSelection = True, useRadioButtons = Some True\<rparr>"
  have en: "disableSelection ?props \<noteq> Some True" and cb: "updateSelection ?props"
    by simp_all
  from handleSelectAllClick_ignores_radio [where props = ?props, OF en cb]
  show ?thesis by (simp add: Let_def)
qed

end
